theory Spec2Isabelle
  imports Complex_Main
begin

section \<open>JavaScript strings\<close>

text \<open>
  A JavaScript string is a sequence of UTF-16 code units; \<open>value.length\<close> counts code
  units. A string is modelled as the list of its code-unit values, and an ASCII literal of
  the source is written \<open>js ''...''\<close>.
\<close>

type_synonym jsstring = "nat list"

definition js :: "string \<Rightarrow> jsstring" where
  "js s = map of_char s"

text \<open>
  \<open>is_ws\<close> is the set that \<open>String.prototype.trim\<close>, \<open>parseInt\<close> and \<open>parseFloat\<close>
  strip: WhiteSpace (TAB, VT, FF, ZWNBSP and the space separators) and LineTerminator
  (LF, CR, LS, PS).
\<close>

definition is_ws :: "nat \<Rightarrow> bool" where
  "is_ws c \<longleftrightarrow>
     c = 9 \<or> c = 10 \<or> c = 11 \<or> c = 12 \<or> c = 13 \<or> c = 32 \<or> c = 160 \<or> c = 5760
     \<or> (8192 \<le> c \<and> c \<le> 8202) \<or> c = 8232 \<or> c = 8233 \<or> c = 8239 \<or> c = 8287
     \<or> c = 12288 \<or> c = 65279"

definition trim :: "jsstring \<Rightarrow> jsstring" where
  "trim s = rev (dropWhile is_ws (rev (dropWhile is_ws s)))"

section \<open>JavaScript numbers\<close>

text \<open>
  A Number is an IEEE 754 double. A finite double is modelled by its exact rational value;
  the two zeros are identified (they compare equal, and the validators only compare).
\<close>

datatype jsnum = NaN | Num rat | PosInfinity | NegInfinity

definition isNaN :: "jsnum \<Rightarrow> bool" where
  "isNaN x \<longleftrightarrow> x = NaN"

text \<open>The relational operators \<open><\<close> and \<open>>\<close>: false as soon as an operand is NaN.\<close>

fun js_lt :: "jsnum \<Rightarrow> jsnum \<Rightarrow> bool" where
  "js_lt NaN _ = False"
| "js_lt _ NaN = False"
| "js_lt (Num a) (Num b) = (a < b)"
| "js_lt (Num _) PosInfinity = True"
| "js_lt (Num _) NegInfinity = False"
| "js_lt PosInfinity _ = False"
| "js_lt NegInfinity NegInfinity = False"
| "js_lt NegInfinity _ = True"

definition js_gt :: "jsnum \<Rightarrow> jsnum \<Rightarrow> bool" where
  "js_gt a b = js_lt b a"

subsection \<open>Rounding a mathematical value to the nearest double\<close>

text \<open>For \<open>n \<ge> 1\<close>, the position of the leading bit of \<open>n\<close>.\<close>

function ilog2 :: "int \<Rightarrow> int" where
  "ilog2 n = (if n < 2 then 0 else 1 + ilog2 (n div 2))"
  by pat_completeness auto
termination
  by (relation "measure nat") auto

declare ilog2.simps [simp del]

definition pow2 :: "int \<Rightarrow> rat" where
  "pow2 k = (if 0 \<le> k then 2 ^ nat k else 1 / 2 ^ nat (- k))"

definition pow10 :: "int \<Rightarrow> rat" where
  "pow10 k = (if 0 \<le> k then 10 ^ nat k else 1 / 10 ^ nat (- k))"

text \<open>For \<open>q > 0\<close>, the exponent \<open>e\<close> with \<open>2 ^ e \<le> q < 2 ^ (e + 1)\<close>.\<close>

definition floor_log2 :: "rat \<Rightarrow> int" where
  "floor_log2 q =
     (let (a, b) = quotient_of q;
          k = ilog2 a - ilog2 b
      in if pow2 k \<le> q then k else k - 1)"

definition round_half_even :: "rat \<Rightarrow> int" where
  "round_half_even q =
     (let f = \<lfloor>q\<rfloor>; d = q - of_int f
      in if d < 1 / 2 then f
         else if 1 / 2 < d then f + 1
         else if even f then f else f + 1)"

text \<open>
  Round to nearest, ties to even, with 53 significant bits, gradual underflow below
  \<open>2 ^ - 1022\<close> and overflow to infinity from \<open>2 ^ 1024\<close> on. This is the Number
  value of a mathematical value in ECMAScript. The standard lets an engine drop the
  digits after the twentieth before rounding; the model rounds the exact value, as the
  current engines do.
\<close>

definition round_double_pos :: "rat \<Rightarrow> rat option" where
  "round_double_pos q =
     (let e = max (floor_log2 q) (- 1022);
          quantum = pow2 (e - 52);
          v = of_int (round_half_even (q / quantum)) * quantum
      in if pow2 1024 \<le> v then None else Some v)"

definition to_number :: "rat \<Rightarrow> jsnum" where
  "to_number q =
     (if q = 0 then Num 0
      else if 0 < q then (case round_double_pos q of None \<Rightarrow> PosInfinity | Some v \<Rightarrow> Num v)
      else (case round_double_pos (- q) of None \<Rightarrow> NegInfinity | Some v \<Rightarrow> Num (- v)))"

section \<open>The built-in parsers\<close>

definition is_digit :: "nat \<Rightarrow> bool" where
  "is_digit c \<longleftrightarrow> 48 \<le> c \<and> c \<le> 57"

text \<open>The value of a code unit as a digit: \<open>0-9\<close>, then \<open>a-z\<close> and \<open>A-Z\<close> from ten on.\<close>

definition digit_value :: "nat \<Rightarrow> nat option" where
  "digit_value c =
     (if 48 \<le> c \<and> c \<le> 57 then Some (c - 48)
      else if 97 \<le> c \<and> c \<le> 122 then Some (c - 87)
      else if 65 \<le> c \<and> c \<le> 90 then Some (c - 55)
      else None)"

definition is_radix_digit :: "nat \<Rightarrow> nat \<Rightarrow> bool" where
  "is_radix_digit R c = (case digit_value c of None \<Rightarrow> False | Some d \<Rightarrow> d < R)"

definition radix_value :: "nat \<Rightarrow> jsstring \<Rightarrow> int" where
  "radix_value R Z =
     foldl (\<lambda>acc c. acc * int R + (case digit_value c of None \<Rightarrow> 0 | Some d \<Rightarrow> int d)) 0 Z"

text \<open>
  \<open>parseInt(string)\<close> with no radix: skip leading white space, take a sign, take radix 16
  after a \<open>0x\<close> or \<open>0X\<close> prefix and radix 10 otherwise, read the longest run of digits of
  that radix; NaN when the run is empty, else the double nearest to the signed integer.
\<close>

definition parseInt :: "jsstring \<Rightarrow> jsnum" where
  "parseInt inputString =
     (let S = dropWhile is_ws inputString;
          sign = (case S of [] \<Rightarrow> 1 | c # _ \<Rightarrow> if c = 45 then - 1 else (1::int));
          S1 = (case S of [] \<Rightarrow> S | c # r \<Rightarrow> if c = 43 \<or> c = 45 then r else S);
          (R, S2) = (case S1 of
                       a # b # r \<Rightarrow> if a = 48 \<and> (b = 120 \<or> b = 88) then (16, r) else (10, S1)
                     | _ \<Rightarrow> (10, S1));
          Z = takeWhile (is_radix_digit R) S2
      in if Z = [] then NaN
         else to_number (of_int (sign * radix_value R Z)))"

text \<open>
  The optional exponent part of a decimal literal: \<open>e\<close> or \<open>E\<close>, an optional sign and at
  least one digit; anything else is no exponent and is left unread.
\<close>

definition exponent_part :: "jsstring \<Rightarrow> int" where
  "exponent_part s =
     (case s of
        [] \<Rightarrow> 0
      | c # r \<Rightarrow>
          if c = 101 \<or> c = 69 then
            (let neg = (case r of [] \<Rightarrow> False | d # _ \<Rightarrow> d = 45);
                 r1 = (case r of [] \<Rightarrow> r | d # t \<Rightarrow> if d = 43 \<or> d = 45 then t else r);
                 ds = takeWhile is_digit r1
             in if ds = [] then 0
                else if neg then - radix_value 10 ds else radix_value 10 ds)
          else 0)"

text \<open>
  \<open>parseFloat(string)\<close>: skip leading white space, read the longest prefix that is a
  signed decimal literal (\<open>Infinity\<close>, or digits with an optional fraction and exponent,
  at least one digit before the exponent); NaN when there is none, else the double
  nearest to the literal's value.
\<close>

definition parseFloat :: "jsstring \<Rightarrow> jsnum" where
  "parseFloat inputString =
     (let S = dropWhile is_ws inputString;
          neg = (case S of [] \<Rightarrow> False | c # _ \<Rightarrow> c = 45);
          S1 = (case S of [] \<Rightarrow> S | c # r \<Rightarrow> if c = 43 \<or> c = 45 then r else S)
      in if take 8 S1 = js ''Infinity'' then (if neg then NegInfinity else PosInfinity)
         else
           (let ip = takeWhile is_digit S1;
                r1 = dropWhile is_digit S1;
                fp = (case r1 of [] \<Rightarrow> [] | c # r \<Rightarrow> if c = 46 then takeWhile is_digit r else []);
                r2 = (case r1 of [] \<Rightarrow> [] | c # r \<Rightarrow> if c = 46 then dropWhile is_digit r else r1)
            in if ip = [] \<and> fp = [] then NaN
               else
                 (let mv = (of_int (radix_value 10 ip)
                              + of_int (radix_value 10 fp) / 10 ^ length fp)
                           * pow10 (exponent_part r2)
                  in to_number (if neg then - mv else mv))))"

section \<open>The field rule set\<close>

datatype field_name = PName | UnitPrice | InStockCount | LowStockCount | CategoryID

text \<open>
  The draft \<open>formData\<close> is an object with exactly the five keys of \<open>INITIAL_FORM_STATE\<close>,
  each holding the string of its input; \<open>formData[name]\<close> is function application and
  \<open>{...prev, [name]: value}\<close> is function update.
\<close>

type_synonym form_data = "field_name \<Rightarrow> jsstring"

definition INITIAL_FORM_STATE :: form_data where
  "INITIAL_FORM_STATE = (\<lambda>_. [])"

text \<open>
  A string is falsy exactly when it is empty, so \<open>!value\<close> is \<open>value = []\<close>. The numeric
  literals of the source are the doubles nearest to them; \<open>0\<close>, \<open>1000\<close>, \<open>9999\<close> and
  \<open>2147483647\<close> are doubles themselves.
\<close>

definition pName_validate :: "jsstring \<Rightarrow> form_data \<Rightarrow> jsstring" where
  "pName_validate value' formData =
     (if trim value' = [] then js ''Product name is required''
      else if length value' > 100 then js ''Product name cannot exceed 100 characters''
      else [])"

definition unitPrice_validate :: "jsstring \<Rightarrow> form_data \<Rightarrow> jsstring" where
  "unitPrice_validate value' formData =
     (let price = parseFloat value'
      in if value' = [] then js ''Unit price is required''
         else if isNaN price \<or> js_lt price (Num 0) then js ''Please enter a valid positive price''
         else if js_gt price (to_number (99999999 / 100)) then js ''Price is too high''
         else [])"

definition inStockCount_validate :: "jsstring \<Rightarrow> form_data \<Rightarrow> jsstring" where
  "inStockCount_validate value' formData =
     (let count = parseInt value'
      in if value' = [] then js ''Stock count is required''
         else if isNaN count \<or> js_lt count (Num 0) then js ''Please enter a valid positive number''
         else if js_gt count (Num 2147483647) then js ''Stock count is too high''
         else [])"

definition lowStockCount_validate :: "jsstring \<Rightarrow> form_data \<Rightarrow> jsstring" where
  "lowStockCount_validate value' formData =
     (let count = parseInt value'
      in if value' = [] then js ''Low stock threshold is required''
         else if isNaN count \<or> js_lt count (Num 0) then js ''Please enter a valid positive number''
         else if js_gt count (parseInt (formData InStockCount))
           then js ''Low stock alert cannot be higher than current stock''
         else [])"

definition categoryID_validate :: "jsstring \<Rightarrow> form_data \<Rightarrow> jsstring" where
  "categoryID_validate value' formData =
     (let categoryId = parseInt value'
      in if value' = [] then js ''Category ID is required''
         else if isNaN categoryId \<or> js_lt categoryId (Num 1000) \<or> js_gt categoryId (Num 9999)
           then js ''Please enter a valid 4-digit category ID (1000-9999)''
         else [])"

text \<open>A field descriptor; the label, input type and bounds only feed the rendering.\<close>

record input_field =
  id' :: field_name
  validate :: "jsstring \<Rightarrow> form_data \<Rightarrow> jsstring"

definition INPUT_FIELDS :: "input_field list" where
  "INPUT_FIELDS =
     [\<lparr>id' = PName, validate = pName_validate\<rparr>,
      \<lparr>id' = UnitPrice, validate = unitPrice_validate\<rparr>,
      \<lparr>id' = InStockCount, validate = inStockCount_validate\<rparr>,
      \<lparr>id' = LowStockCount, validate = lowStockCount_validate\<rparr>,
      \<lparr>id' = CategoryID, validate = categoryID_validate\<rparr>]"

section \<open>The form controller\<close>

record form_state =
  formData :: form_data
  errors :: "field_name \<rightharpoonup> jsstring"
  isSubmitting :: bool

text \<open>The body of the POST: the draft with its four numeric fields parsed.\<close>

record payload =
  pName :: jsstring
  unitPrice :: jsnum
  inStockCount :: jsnum
  lowStockCount :: jsnum
  categoryID :: jsnum

text \<open>
  A value that a response body can hold under a key, or \<open>undefined\<close> when there is
  nothing to read: \<open>error.response?.data?.message\<close> is \<open>undefined\<close> when the error has no
  response, the response no body, or the body no such key.
\<close>

datatype js_value =
    JSUndefined
  | JSNull
  | JSBoolean bool
  | JSNumber jsnum
  | JSString jsstring
  | JSArray "js_value list"
  | JSObject "(jsstring \<times> js_value) list"

text \<open>
  What a handler does to the world, in order: the notifications it shows, the request it
  sends and the call of \<open>onClose\<close>. \<open>toast.error\<close> is called with a string literal in
  one place and with a value that may come from the server in the other, so it carries a
  value. The console output is left out.
\<close>

datatype effect =
    ToastError js_value
  | ToastLoading jsstring
  | ToastSuccess jsstring
  | Post jsstring payload
  | OnClose

datatype js_error = TypeError

text \<open>
  A handler is a function of the state it was rendered with: React renders again after
  every event, so the \<open>formData\<close> a handler closes over is the current draft, and the
  state after the handler is the old one with its \<open>set\<close> calls applied.

  \<open>handleChange\<close>: the draft gets the new value under \<open>name\<close>; the field's rule is run on
  the new value and on the \<open>formData\<close> the handler closed over, which is the draft before
  this change; the result is stored under \<open>name\<close> in the error map. A name with no
  descriptor makes \<open>field.validate\<close> throw.
\<close>

definition handleChange :: "field_name \<Rightarrow> jsstring \<Rightarrow> form_state \<Rightarrow> js_error + form_state" where
  "handleChange name value' st =
     (case find (\<lambda>f. id' f = name) INPUT_FIELDS of
        None \<Rightarrow> Inl TypeError
      | Some field \<Rightarrow>
          (let error = validate field value' (formData st)
           in Inr (st\<lparr>formData := (formData st)(name := value'),
                      errors := (errors st)(name \<mapsto> error)\<rparr>)))"

text \<open>The \<open>forEach\<close> of \<open>handleSubmit\<close>: the pair \<open>(newErrors, isValid)\<close> after all fields.\<close>

definition validate_step ::
  "form_data \<Rightarrow> (field_name \<rightharpoonup> jsstring) \<times> bool \<Rightarrow> input_field \<Rightarrow> (field_name \<rightharpoonup> jsstring) \<times> bool" where
  "validate_step fd acc field =
     (let error = validate field (fd (id' field)) fd
      in if error \<noteq> [] then ((fst acc)(id' field \<mapsto> error), False) else acc)"

definition validate_all :: "form_data \<Rightarrow> (field_name \<rightharpoonup> jsstring) \<times> bool" where
  "validate_all fd = foldl (validate_step fd) (Map.empty, True) INPUT_FIELDS"

definition processedData :: "form_data \<Rightarrow> payload" where
  "processedData fd =
     \<lparr>pName = fd PName,
      unitPrice = parseFloat (fd UnitPrice),
      inStockCount = parseInt (fd InStockCount),
      lowStockCount = parseInt (fd LowStockCount),
      categoryID = parseInt (fd CategoryID)\<rparr>"

text \<open>
  How the awaited request ends: it resolves, or it rejects with an error; \<open>Rejected m\<close>
  carries the value \<open>m\<close> of \<open>error.response?.data?.message\<close>.
\<close>

datatype api_result = Resolved | Rejected js_value

text \<open>
  The conversion to a boolean that \<open>||\<close> applies to its left operand: \<open>undefined\<close>,
  \<open>null\<close>, \<open>false\<close>, the zeros, NaN and the empty string are falsy, every other value
  is truthy.
\<close>

fun ToBoolean :: "js_value \<Rightarrow> bool" where
  "ToBoolean JSUndefined = False"
| "ToBoolean JSNull = False"
| "ToBoolean (JSBoolean b) = b"
| "ToBoolean (JSNumber n) = (n \<noteq> Num 0 \<and> n \<noteq> NaN)"
| "ToBoolean (JSString t) = (t \<noteq> [])"
| "ToBoolean (JSArray _) = True"
| "ToBoolean (JSObject _) = True"

text \<open>\<open>error.response?.data?.message || "Failed to add product"\<close>\<close>

definition errorMessage :: "js_value \<Rightarrow> js_value" where
  "errorMessage m = (if ToBoolean m then m else JSString (js ''Failed to add product''))"

text \<open>
  \<open>handleSubmit\<close> up to its \<open>await\<close>: either it returns early, or it is left waiting for
  the request it has sent.
\<close>

datatype submit_progress =
    Aborted form_state "effect list"
  | Awaiting form_state "effect list"

definition handleSubmit_start :: "form_state \<Rightarrow> submit_progress" where
  "handleSubmit_start st =
     (let (newErrors, isValid) = validate_all (formData st);
          st1 = st\<lparr>errors := newErrors\<rparr>
      in if \<not> isValid
         then Aborted st1 [ToastError (JSString (js ''Please fix the form errors before submitting''))]
         else Awaiting (st1\<lparr>isSubmitting := True\<rparr>)
                [ToastLoading (js ''Adding product...''),
                 Post (js ''http://localhost:3000/api/products/add'') (processedData (formData st))])"

text \<open>The rest of the \<open>try\<close>, the \<open>catch\<close> and the \<open>finally\<close>, once the request has ended.\<close>

definition handleSubmit_finish :: "api_result \<Rightarrow> form_state \<Rightarrow> form_state \<times> effect list" where
  "handleSubmit_finish r st =
     (case r of
        Resolved \<Rightarrow>
          (st\<lparr>formData := INITIAL_FORM_STATE, isSubmitting := False\<rparr>,
           [ToastSuccess (js ''Successfully added the product!''), OnClose])
      | Rejected m \<Rightarrow>
          (st\<lparr>isSubmitting := False\<rparr>, [ToastError (errorMessage m)]))"

definition handleSubmit :: "api_result \<Rightarrow> form_state \<Rightarrow> form_state \<times> effect list" where
  "handleSubmit r st =
     (case handleSubmit_start st of
        Aborted st1 es \<Rightarrow> (st1, es)
      | Awaiting st1 es \<Rightarrow>
          (let (st2, es2) = handleSubmit_finish r st1 in (st2, es @ es2)))"

text \<open>The state of a freshly mounted form: the three \<open>useState\<close> initial values.\<close>

definition initial_state :: form_state where
  "initial_state = \<lparr>formData = INITIAL_FORM_STATE, errors = Map.empty, isSubmitting = False\<rparr>"

subsection \<open>Observations used in the statements\<close>

text \<open>A draft is fully valid when every rule accepts its own field of the draft.\<close>

definition fully_valid :: "form_data \<Rightarrow> bool" where
  "fully_valid fd = list_all (\<lambda>field. validate field (fd (id' field)) fd = []) INPUT_FIELDS"

text \<open>The requests among the effects, in order, each with its URL and body.\<close>

fun posts :: "effect list \<Rightarrow> (jsstring \<times> payload) list" where
  "posts [] = []"
| "posts (Post url body # es) = (url, body) # posts es"
| "posts (_ # es) = posts es"

text \<open>A draft that every rule accepts, and the form holding it.\<close>

definition sample_draft :: form_data where
  "sample_draft =
     INITIAL_FORM_STATE
       (PName := js ''Tea'', UnitPrice := js ''9.5'', InStockCount := js ''10'',
        LowStockCount := js ''10'', CategoryID := js ''1000'')"

definition sample_state :: form_state where
  "sample_state = \<lparr>formData = sample_draft, errors = Map.empty, isSubmitting = False\<rparr>"

section \<open>Facts about rounding and parsing\<close>

lemma pow2_powi: "pow2 k = 2 powi k"
  by (simp add: pow2_def power_int_def inverse_eq_divide power_one_over flip: power_inverse)

lemma pow2_pos: "0 < pow2 k"
  by (simp add: pow2_powi)

lemma pow2_nonpos: "k \<le> 0 \<Longrightarrow> pow2 k = 1 / 2 ^ nat (- k)"
  by (cases "k = 0") (simp_all add: pow2_def)

lemma pow2_nonneg: "0 \<le> k \<Longrightarrow> pow2 k = 2 ^ nat k"
  by (simp add: pow2_def)

lemma pow2_Suc: "pow2 (k + 1) = 2 * pow2 k"
  by (simp add: pow2_powi power_int_add_1 mult.commute)

lemma pow2_add: "pow2 (j + k) = pow2 j * pow2 k"
  by (simp add: pow2_powi power_int_add)

lemma pow2_mono: "j \<le> k \<Longrightarrow> pow2 j \<le> pow2 k"
  by (simp add: pow2_powi power_int_increasing)

lemma pow2_less_cancel: "pow2 j < pow2 k \<Longrightarrow> j < k"
  using pow2_mono [of k j] by (cases "j < k") auto

lemma ilog2_nonneg: "0 \<le> ilog2 n"
  by (induction n rule: ilog2.induct) (subst ilog2.simps, simp)

lemma ilog2_bounds: "1 \<le> n \<Longrightarrow> 2 ^ nat (ilog2 n) \<le> n \<and> n < 2 * 2 ^ nat (ilog2 n)"
proof (induction n rule: ilog2.induct)
  case (1 n)
  show ?case
  proof (cases "n < 2")
    case True
    with "1.prems" have "n = 1" by simp
    then show ?thesis by (simp add: ilog2.simps)
  next
    case False
    then have h: "1 \<le> n div 2" by simp
    from "1.IH" [OF False h] have
      lo: "2 ^ nat (ilog2 (n div 2)) \<le> n div 2" and hi: "n div 2 < 2 * 2 ^ nat (ilog2 (n div 2))"
      by simp_all
    have eq: "ilog2 n = 1 + ilog2 (n div 2)"
      using False by (subst ilog2.simps) simp
    have p: "(2::int) ^ nat (ilog2 n) = 2 * 2 ^ nat (ilog2 (n div 2))"
      using ilog2_nonneg [of "n div 2"] by (simp add: eq nat_add_distrib)
    from lo hi show ?thesis unfolding p by linarith
  qed
qed

lemma round_half_even_of_int: "round_half_even (of_int k) = k"
  by (simp add: round_half_even_def)

lemma floor_log2_bounds:
  assumes "0 < q"
  shows "pow2 (floor_log2 q) \<le> q \<and> q < pow2 (floor_log2 q + 1)"
proof -
  obtain a b where ab: "quotient_of q = (a, b)" by (cases "quotient_of q")
  have b: "0 < b" using ab by (rule quotient_of_denom_pos)
  have q: "q = of_int a / of_int b" using ab by (rule quotient_of_div)
  have a: "0 < a" using assms b unfolding q by (simp add: zero_less_divide_iff)
  define la lb where "la = ilog2 a" and "lb = ilog2 b"
  have la0: "0 \<le> la" and lb0: "0 \<le> lb" by (simp_all add: la_def lb_def ilog2_nonneg)
  from ilog2_bounds [of a] a have "2 ^ nat la \<le> a" "a < 2 * 2 ^ nat la"
    by (simp_all add: la_def)
  then have "(of_int (2 ^ nat la) :: rat) \<le> of_int a" "(of_int a :: rat) < of_int (2 * 2 ^ nat la)"
    by (simp_all only: of_int_le_iff of_int_less_iff)
  then have A: "pow2 la \<le> of_int a" "of_int a < 2 * pow2 la"
    using la0 by (simp_all add: pow2_nonneg)
  from ilog2_bounds [of b] b have "2 ^ nat lb \<le> b" "b < 2 * 2 ^ nat lb"
    by (simp_all add: lb_def)
  then have "(of_int (2 ^ nat lb) :: rat) \<le> of_int b" "(of_int b :: rat) < of_int (2 * 2 ^ nat lb)"
    by (simp_all only: of_int_le_iff of_int_less_iff)
  then have B: "pow2 lb \<le> of_int b" "of_int b < 2 * pow2 lb"
    using lb0 by (simp_all add: pow2_nonneg)
  have bq: "(0::rat) < of_int b" using b by simp
  have k: "pow2 la = pow2 (la - lb) * pow2 lb"
    by (simp flip: pow2_add)
  have upper: "q < pow2 (la - lb + 1)"
  proof -
    have "of_int a < 2 * pow2 (la - lb) * pow2 lb" using A(2) k by simp
    also have "\<dots> \<le> 2 * pow2 (la - lb) * of_int b"
      using B(1) pow2_pos [of "la - lb"] by (simp add: mult_left_mono)
    finally have "of_int a / of_int b < 2 * pow2 (la - lb)"
      using bq by (simp add: pos_divide_less_eq)
    then show ?thesis by (simp add: q pow2_Suc)
  qed
  have lower: "pow2 (la - lb - 1) \<le> q"
  proof -
    have h: "pow2 (la - lb) = 2 * pow2 (la - lb - 1)"
      using pow2_Suc [of "la - lb - 1"] by simp
    have "pow2 (la - lb - 1) * of_int b \<le> pow2 (la - lb - 1) * (2 * pow2 lb)"
      using B(2) pow2_pos [of "la - lb - 1"] by (simp add: mult_left_mono)
    also have "\<dots> = pow2 la" using k h by simp
    also have "\<dots> \<le> of_int a" by (rule A(1))
    finally show ?thesis using bq by (simp add: q pos_le_divide_eq)
  qed
  have f: "floor_log2 q = (if pow2 (la - lb) \<le> q then la - lb else la - lb - 1)"
    by (simp add: floor_log2_def ab la_def lb_def)
  show ?thesis
  proof (cases "pow2 (la - lb) \<le> q")
    case True
    then show ?thesis using upper by (simp add: f)
  next
    case False
    then show ?thesis using lower by (simp add: f)
  qed
qed

lemma floor_log2_unique:
  assumes "pow2 e \<le> q" and "q < pow2 (e + 1)"
  shows "floor_log2 q = e"
proof -
  have "0 < q" using assms(1) pow2_pos [of e] by simp
  from floor_log2_bounds [OF this] have
    lo: "pow2 (floor_log2 q) \<le> q" and hi: "q < pow2 (floor_log2 q + 1)" by simp_all
  have "pow2 (floor_log2 q) < pow2 (e + 1)" using lo assms(2) by simp
  then have 1: "floor_log2 q < e + 1" by (rule pow2_less_cancel)
  have "pow2 e < pow2 (floor_log2 q + 1)" using assms(1) hi by simp
  then have 2: "e < floor_log2 q + 1" by (rule pow2_less_cancel)
  from 1 2 show ?thesis by simp
qed

lemma round_double_pos_value:
  assumes "pow2 e \<le> q" and "q < pow2 (e + 1)" and "- 1022 \<le> e" and "e \<le> 1023"
  shows "round_double_pos q =
    (let v = of_int (round_half_even (q / pow2 (e - 52))) * pow2 (e - 52)
     in if pow2 1024 \<le> v then None else Some v)"
  using floor_log2_unique [OF assms(1,2)] assms(3)
  by (simp add: round_double_pos_def Let_def max_def)

lemma round_half_even_divide:
  assumes "0 < b"
  shows "round_half_even (of_int a / of_int b) =
    (if 2 * (a mod b) < b then a div b
     else if b < 2 * (a mod b) then a div b + 1
     else if even (a div b) then a div b else a div b + 1)"
proof -
  have f: "\<lfloor>(of_int a :: rat) / of_int b\<rfloor> = a div b"
    by (rule floor_divide_of_int_eq)
  have "(of_int a :: rat) = of_int (b * (a div b) + a mod b)" by simp
  also have "\<dots> = of_int b * of_int (a div b) + of_int (a mod b)"
    by (simp only: of_int_add of_int_mult)
  finally have d: "(of_int a :: rat) / of_int b - of_int (a div b) = of_int (a mod b) / of_int b"
    using assms by (simp add: field_simps)
  have bq: "(0::rat) < of_int b" using assms by simp
  have lt: "(of_int (a mod b) :: rat) / of_int b < 1 / 2 \<longleftrightarrow> 2 * (a mod b) < b"
  proof -
    have "(of_int (a mod b) :: rat) / of_int b < 1 / 2 \<longleftrightarrow>
        (of_int (2 * (a mod b)) :: rat) < of_int b"
      using bq by (simp add: field_simps)
    then show ?thesis by (simp only: of_int_less_iff)
  qed
  have gt: "1 / 2 < (of_int (a mod b) :: rat) / of_int b \<longleftrightarrow> b < 2 * (a mod b)"
  proof -
    have "1 / 2 < (of_int (a mod b) :: rat) / of_int b \<longleftrightarrow>
        (of_int b :: rat) < of_int (2 * (a mod b))"
      using bq by (simp add: field_simps)
    then show ?thesis by (simp only: of_int_less_iff)
  qed
  show ?thesis
    unfolding round_half_even_def Let_def f d lt gt by simp
qed

lemma price_limit_value: "to_number (99999999 / 100) = Num (4294967253050327 / 4294967296)"
proof -
  have r: "round_half_even (214748362652516352 / 25) = 8589934506100654"
    using round_half_even_divide [of 25 214748362652516352] by simp
  have "round_double_pos (99999999 / 100) = Some (4294967253050327 / 4294967296)"
    by (subst round_double_pos_value [where e = 19])
       (simp_all add: pow2_def r)
  then show ?thesis by (simp add: to_number_def)
qed

lemma round_double_pos_nonneg:
  assumes "0 < q" and "round_double_pos q = Some v"
  shows "0 \<le> v"
proof -
  define quantum where "quantum = pow2 (max (floor_log2 q) (- 1022) - 52)"
  have qp: "0 < quantum" by (simp add: quantum_def pow2_pos)
  have "0 \<le> q / quantum" using assms(1) qp by simp
  then have "0 \<le> \<lfloor>q / quantum\<rfloor>" by simp
  then have "0 \<le> round_half_even (q / quantum)"
    by (simp add: round_half_even_def Let_def)
  then have "0 \<le> (of_int (round_half_even (q / quantum)) :: rat) * quantum"
    using qp by simp
  moreover have "v = of_int (round_half_even (q / quantum)) * quantum"
    using assms(2) by (simp add: round_double_pos_def Let_def quantum_def split: if_splits)
  ultimately show ?thesis by simp
qed

lemma round_double_pos_of_int:
  assumes "0 < n" and "round_double_pos (of_int n) = Some v"
  shows "\<exists>k. v = of_int k"
proof -
  define e where "e = max (floor_log2 (of_int n)) (- 1022)"
  have v: "v = of_int (round_half_even (of_int n / pow2 (e - 52))) * pow2 (e - 52)"
    using assms(2) by (simp add: round_double_pos_def Let_def e_def split: if_splits)
  show ?thesis
  proof (cases "e \<le> 52")
    case True
    then have p: "pow2 (e - 52) = 1 / 2 ^ nat (52 - e)"
      using pow2_nonpos [of "e - 52"] by simp
    have "(of_int n :: rat) / pow2 (e - 52) = of_int (n * 2 ^ nat (52 - e))"
      by (simp add: p)
    then have "round_half_even (of_int n / pow2 (e - 52)) = n * 2 ^ nat (52 - e)"
      by (simp only: round_half_even_of_int)
    then have "v = of_int n" by (simp add: v p)
    then show ?thesis by blast
  next
    case False
    then have p: "pow2 (e - 52) = of_int (2 ^ nat (e - 52))"
      using pow2_nonneg [of "e - 52"] by simp
    have "v = of_int (round_half_even (of_int n / pow2 (e - 52)) * 2 ^ nat (e - 52))"
      unfolding v p by (simp only: of_int_mult)
    then show ?thesis by blast
  qed
qed

lemma round_double_pos_exact:
  assumes "0 < n" and "n < 2 ^ 53"
  shows "round_double_pos (of_int n) = Some (of_int n)"
proof -
  have q: "(0::rat) < of_int n" using assms(1) by simp
  define e where "e = max (floor_log2 (of_int n)) (- 1022)"
  have "(of_int n :: rat) < of_int (2 ^ 53)" using assms(2) by (simp only: of_int_less_iff)
  then have "(of_int n :: rat) < pow2 53" by (simp add: pow2_def)
  with floor_log2_bounds [OF q] have "pow2 (floor_log2 (of_int n)) < pow2 53" by simp
  then have "floor_log2 (of_int n) < 53" by (rule pow2_less_cancel)
  then have e: "e \<le> 52" by (simp add: e_def)
  then have p: "pow2 (e - 52) = 1 / 2 ^ nat (52 - e)"
    using pow2_nonpos [of "e - 52"] by simp
  have "(of_int n :: rat) / pow2 (e - 52) = of_int (n * 2 ^ nat (52 - e))"
    by (simp add: p)
  then have r: "round_half_even (of_int n / pow2 (e - 52)) = n * 2 ^ nat (52 - e)"
    by (simp only: round_half_even_of_int)
  have v: "of_int (round_half_even (of_int n / pow2 (e - 52))) * pow2 (e - 52) = (of_int n :: rat)"
    unfolding r by (simp add: p)
  have "(of_int n :: rat) < of_int (2 ^ 1024)"
    using assms(2) by (simp only: of_int_less_iff) simp
  then have small: "\<not> pow2 1024 \<le> (of_int n :: rat)" by (simp add: pow2_def)
  show ?thesis
    using small by (simp add: round_double_pos_def Let_def v flip: e_def)
qed

lemma to_number_not_NaN: "to_number q \<noteq> NaN"
  by (simp add: to_number_def split: option.splits)

lemma to_number_exact:
  assumes "\<bar>n\<bar> < 2 ^ 53"
  shows "to_number (of_int n) = Num (of_int n)"
proof -
  consider "n = 0" | "0 < n" | "n < 0" by linarith
  then show ?thesis
  proof cases
    case 1
    then show ?thesis by (simp add: to_number_def)
  next
    case 2
    with assms have "round_double_pos (of_int n) = Some (of_int n)"
      by (intro round_double_pos_exact) simp_all
    with 2 show ?thesis by (simp add: to_number_def)
  next
    case 3
    with assms have "round_double_pos (of_int (- n)) = Some (of_int (- n))"
      by (intro round_double_pos_exact) simp_all
    with 3 show ?thesis by (simp add: to_number_def)
  qed
qed

lemma to_number_of_int_integral:
  assumes "to_number (of_int n) = Num v"
  shows "\<exists>k. v = of_int k"
proof -
  consider "n = 0" | "0 < n" | "n < 0" by linarith
  then show ?thesis
  proof cases
    case 1
    with assms have "v = of_int 0" by (simp add: to_number_def)
    then show ?thesis by blast
  next
    case 2
    with assms obtain w where w: "round_double_pos (of_int n) = Some w" and "v = w"
      by (auto simp: to_number_def split: option.splits)
    with round_double_pos_of_int [OF 2 w] show ?thesis by simp
  next
    case 3
    then have pos: "0 < - n" by simp
    from 3 assms obtain w where w: "round_double_pos (of_int (- n)) = Some w" and v: "v = - w"
      by (auto simp: to_number_def split: option.splits)
    from round_double_pos_of_int [OF pos w] obtain k where "w = of_int k" by blast
    then have "v = of_int (- k)" using v by simp
    then show ?thesis by blast
  qed
qed

lemma to_number_nonneg: "0 \<le> q \<Longrightarrow> \<not> js_lt (to_number q) (Num 0)"
  using round_double_pos_nonneg [of q]
  by (auto simp: to_number_def split: option.splits)

lemma to_number_nonpos: "q \<le> 0 \<Longrightarrow> \<not> js_lt (Num 0) (to_number q)"
  using round_double_pos_nonneg [of "- q"]
  by (auto simp: to_number_def split: option.splits)

lemma parseInt_cases: "parseInt s = NaN \<or> (\<exists>n. parseInt s = to_number (of_int n))"
  unfolding parseInt_def Let_def by (auto split: prod.splits simp del: of_int_mult)

lemma parseInt_integral: "parseInt s = Num v \<Longrightarrow> \<exists>k. v = of_int k"
  using parseInt_cases [of s] by (auto dest: to_number_of_int_integral [OF sym])

subsection \<open>Parsing the strings of the examples\<close>

lemmas parse_eval =
  parseInt_def parseFloat_def js_def is_ws_def is_digit_def is_radix_digit_def
  digit_value_def radix_value_def exponent_part_def pow10_def

lemma parseInt_10: "parseInt (js ''10'') = Num 10"
  using to_number_exact [of 10] by (simp add: parse_eval)

lemma parseInt_11: "parseInt (js ''11'') = Num 11"
  using to_number_exact [of 11] by (simp add: parse_eval)

lemma parseInt_999: "parseInt (js ''999'') = Num 999"
  using to_number_exact [of 999] by (simp add: parse_eval)

lemma parseInt_1000: "parseInt (js ''1000'') = Num 1000"
  using to_number_exact [of 1000] by (simp add: parse_eval)

lemma parseInt_9999: "parseInt (js ''9999'') = Num 9999"
  using to_number_exact [of 9999] by (simp add: parse_eval)

lemma parseInt_10000: "parseInt (js ''10000'') = Num 10000"
  using to_number_exact [of 10000] by (simp add: parse_eval)

lemma parseInt_empty: "parseInt [] = NaN"
  by (simp add: parseInt_def)

lemma parseFloat_minus_1: "parseFloat (js ''-1'') = Num (- 1)"
  using to_number_exact [of "- 1"] by (simp add: parse_eval)

lemma parseFloat_0: "parseFloat (js ''0'') = Num 0"
  by (simp add: parse_eval to_number_def)

lemma parseFloat_1000000: "parseFloat (js ''1000000'') = Num 1000000"
  using to_number_exact [of 1000000] by (simp add: parse_eval)

text \<open>The double of one tenth, as a check of the rounding.\<close>

lemma parseFloat_0_1: "parseFloat (js ''0.1'') = Num (3602879701896397 / 36028797018963968)"
proof -
  have r: "round_half_even (36028797018963968 / 5) = 7205759403792794"
    using round_half_even_divide [of 5 36028797018963968] by simp
  have "round_double_pos (1 / 10) = Some (3602879701896397 / 36028797018963968)"
    by (subst round_double_pos_value [where e = "- 4"]) (simp_all add: pow2_def r)
  then have "to_number (1 / 10) = Num (3602879701896397 / 36028797018963968)"
    by (simp add: to_number_def)
  then show ?thesis by (simp add: parse_eval)
qed

lemma parseFloat_999999_99: "parseFloat (js ''999999.99'') = Num (4294967253050327 / 4294967296)"
  by (simp add: parse_eval price_limit_value)

lemma js_nonempty: "s \<noteq> [] \<Longrightarrow> js s \<noteq> []"
  by (simp add: js_def)

lemma unitPrice_accepts_iff:
  "unitPrice_validate v fd = [] \<longleftrightarrow>
     v \<noteq> [] \<and> (\<exists>p. parseFloat v = Num p \<and> 0 \<le> p \<and> p \<le> 4294967253050327 / 4294967296)"
  by (cases "parseFloat v")
     (auto simp: unitPrice_validate_def price_limit_value isNaN_def js_gt_def js_nonempty Let_def)

lemma categoryID_accepts_iff:
  "categoryID_validate v fd = [] \<longleftrightarrow>
     v \<noteq> [] \<and> (\<exists>k::int. parseInt v = Num (of_int k) \<and> 1000 \<le> k \<and> k \<le> 9999)"
proof (cases "parseInt v")
  case (Num q)
  then obtain k where k: "q = of_int k" using parseInt_integral by blast
  have "(1000 \<le> q \<and> q \<le> 9999) = (1000 \<le> k \<and> k \<le> 9999)"
    unfolding k by simp
  then show ?thesis
    using Num k by (auto simp: categoryID_validate_def isNaN_def js_gt_def js_nonempty Let_def)
qed (auto simp: categoryID_validate_def isNaN_def js_gt_def js_nonempty Let_def)

lemma trim_empty_iff: "trim v = [] \<longleftrightarrow> (\<forall>c \<in> set v. is_ws c)"
proof
  assume "trim v = []"
  then have "\<forall>c \<in> set (dropWhile is_ws v). is_ws c"
    by (simp add: trim_def)
  then have "dropWhile is_ws v = []"
    using hd_dropWhile [of is_ws v] by (cases "dropWhile is_ws v") auto
  then show "\<forall>c \<in> set v. is_ws c"
    by simp
next
  assume "\<forall>c \<in> set v. is_ws c"
  then show "trim v = []" by (auto simp: trim_def dest: set_dropWhileD)
qed

section \<open>Facts about the rules and the handlers\<close>

lemma foldl_validate_step_snd:
  "snd (foldl (validate_step fd) acc fs) \<longleftrightarrow>
     snd acc \<and> list_all (\<lambda>field. validate field (fd (id' field)) fd = []) fs"
  by (induction fs arbitrary: acc) (auto simp: validate_step_def Let_def)

lemma foldl_validate_step_valid:
  "list_all (\<lambda>field. validate field (fd (id' field)) fd = []) fs \<Longrightarrow>
     foldl (validate_step fd) acc fs = acc"
  by (induction fs arbitrary: acc) (auto simp: validate_step_def Let_def)

lemma validate_all_snd: "snd (validate_all fd) = fully_valid fd"
  by (simp add: validate_all_def fully_valid_def foldl_validate_step_snd)

lemma validate_all_valid: "fully_valid fd \<Longrightarrow> validate_all fd = (Map.empty, True)"
  by (simp add: validate_all_def fully_valid_def foldl_validate_step_valid)

lemma handleSubmit_start_invalid:
  "\<not> fully_valid (formData st) \<Longrightarrow>
     handleSubmit_start st =
       Aborted (st\<lparr>errors := fst (validate_all (formData st))\<rparr>)
         [ToastError (JSString (js ''Please fix the form errors before submitting''))]"
  using validate_all_snd [of "formData st"]
  by (cases "validate_all (formData st)") (simp add: handleSubmit_start_def)

lemma handleSubmit_start_valid:
  "fully_valid (formData st) \<Longrightarrow>
     handleSubmit_start st =
       Awaiting (st\<lparr>errors := Map.empty, isSubmitting := True\<rparr>)
         [ToastLoading (js ''Adding product...''),
          Post (js ''http://localhost:3000/api/products/add'') (processedData (formData st))]"
  by (simp add: handleSubmit_start_def validate_all_valid)

lemma find_INPUT_FIELDS:
  "\<exists>f. find (\<lambda>f. id' f = name) INPUT_FIELDS = Some f \<and> id' f = name
     \<and> (\<forall>v fd x. validate f v (fd(name := x)) = validate f v fd)"
  by (cases name)
     (simp_all add: INPUT_FIELDS_def pName_validate_def unitPrice_validate_def
        inStockCount_validate_def lowStockCount_validate_def categoryID_validate_def Let_def)

lemma parseFloat_9_5: "parseFloat (js ''9.5'') = Num (19 / 2)"
proof -
  have r: "round_half_even 5348024557502464 = 5348024557502464"
    using round_half_even_of_int [of 5348024557502464] by simp
  have "round_double_pos (19 / 2) = Some (19 / 2)"
    by (subst round_double_pos_value [where e = 3]) (simp_all add: pow2_def r)
  then have "to_number (19 / 2) = Num (19 / 2)" by (simp add: to_number_def)
  then show ?thesis by (simp add: parse_eval)
qed

lemma fully_valid_sample: "fully_valid sample_draft"
  by (simp add: fully_valid_def INPUT_FIELDS_def sample_draft_def INITIAL_FORM_STATE_def
      pName_validate_def unitPrice_validate_def inStockCount_validate_def
      lowStockCount_validate_def categoryID_validate_def
      parseFloat_9_5 parseInt_10 parseInt_1000 price_limit_value isNaN_def js_gt_def
      trim_empty_iff Let_def)
     (simp add: js_def is_ws_def)

lemma not_fully_valid_initial: "\<not> fully_valid INITIAL_FORM_STATE"
  by (simp add: fully_valid_def INPUT_FIELDS_def INITIAL_FORM_STATE_def pName_validate_def
      trim_def js_nonempty)

lemma fully_valid_iff:
  "fully_valid fd \<longleftrightarrow>
     pName_validate (fd PName) fd = [] \<and> unitPrice_validate (fd UnitPrice) fd = []
     \<and> inStockCount_validate (fd InStockCount) fd = []
     \<and> lowStockCount_validate (fd LowStockCount) fd = []
     \<and> categoryID_validate (fd CategoryID) fd = []"
  by (simp add: fully_valid_def INPUT_FIELDS_def)

lemma count_accepts:
  assumes "\<not> isNaN (parseInt v)" and "\<not> js_lt (parseInt v) (Num 0)"
    and "\<not> js_gt (parseInt v) (Num b)"
  shows "\<exists>k::int. parseInt v = Num (of_int k) \<and> 0 \<le> k \<and> (of_int k :: rat) \<le> b"
proof (cases "parseInt v")
  case (Num q)
  then obtain k where k: "q = of_int k" using parseInt_integral by blast
  with assms Num show ?thesis by (auto simp: js_gt_def)
qed (use assms in \<open>simp_all add: isNaN_def js_gt_def\<close>)

lemma inStockCount_accepts:
  assumes "inStockCount_validate v fd = []"
  shows "\<exists>k::int. parseInt v = Num (of_int k) \<and> 0 \<le> k \<and> k \<le> 2147483647"
proof -
  from assms have "\<not> isNaN (parseInt v)" "\<not> js_lt (parseInt v) (Num 0)"
    "\<not> js_gt (parseInt v) (Num 2147483647)"
    by (auto simp: inStockCount_validate_def Let_def js_nonempty split: if_splits)
  from count_accepts [OF this] obtain k :: int where
    "parseInt v = Num (of_int k)" "0 \<le> k" "(of_int k :: rat) \<le> 2147483647" by blast
  moreover from this(3) have "(of_int k :: rat) \<le> of_int 2147483647" by simp
  then have "k \<le> 2147483647" by (simp only: of_int_le_iff)
  ultimately show ?thesis by blast
qed

lemma lowStockCount_accepts:
  assumes "lowStockCount_validate v fd = []" and "parseInt (fd InStockCount) = Num (of_int i)"
  shows "\<exists>k::int. parseInt v = Num (of_int k) \<and> 0 \<le> k \<and> k \<le> i"
proof -
  from assms have "\<not> isNaN (parseInt v)" "\<not> js_lt (parseInt v) (Num 0)"
    "\<not> js_gt (parseInt v) (Num (of_int i))"
    by (auto simp: lowStockCount_validate_def Let_def js_nonempty split: if_splits)
  from count_accepts [OF this] obtain k :: int where
    "parseInt v = Num (of_int k)" "0 \<le> k" "(of_int k :: rat) \<le> of_int i" by blast
  moreover from this(3) have "k \<le> i" by (simp only: of_int_le_iff)
  ultimately show ?thesis by blast
qed

lemma fully_valid_numbers:
  assumes "fully_valid fd"
  shows "\<exists>p (i::int) (l::int) (c::int).
      parseFloat (fd UnitPrice) = Num p \<and> 0 \<le> p \<and> p \<le> 4294967253050327 / 4294967296
    \<and> parseInt (fd InStockCount) = Num (of_int i) \<and> i \<le> 2147483647
    \<and> parseInt (fd LowStockCount) = Num (of_int l) \<and> 0 \<le> l \<and> l \<le> i
    \<and> parseInt (fd CategoryID) = Num (of_int c) \<and> 1000 \<le> c \<and> c \<le> 9999"
proof -
  from assms have v: "unitPrice_validate (fd UnitPrice) fd = []"
    "inStockCount_validate (fd InStockCount) fd = []"
    "lowStockCount_validate (fd LowStockCount) fd = []"
    "categoryID_validate (fd CategoryID) fd = []"
    by (simp_all add: fully_valid_iff)
  from v(1) obtain p where p: "parseFloat (fd UnitPrice) = Num p" "0 \<le> p"
    "p \<le> 4294967253050327 / 4294967296"
    by (auto simp: unitPrice_accepts_iff)
  from inStockCount_accepts [OF v(2)] obtain i :: int where
    i: "parseInt (fd InStockCount) = Num (of_int i)" "i \<le> 2147483647" by blast
  from lowStockCount_accepts [OF v(3) i(1)] obtain l :: int where
    l: "parseInt (fd LowStockCount) = Num (of_int l)" "0 \<le> l" "l \<le> i" by blast
  from v(4) obtain c :: int where c: "parseInt (fd CategoryID) = Num (of_int c)"
    "1000 \<le> c" "c \<le> 9999"
    by (auto simp: categoryID_accepts_iff)
  from p i l c show ?thesis by blast
qed

lemma round_half_even_bounds:
  "\<lfloor>x\<rfloor> \<le> round_half_even x \<and> round_half_even x \<le> \<lfloor>x\<rfloor> + 1"
  by (simp add: round_half_even_def Let_def)

lemma round_double_pos_le_price_limit:
  assumes q: "0 < q" and r: "round_double_pos q = Some p" and le: "p \<le> 99999999 / 100"
  shows "p \<le> 4294967253050327 / 4294967296"
proof -
  define e where "e = max (floor_log2 q) (- 1022)"
  define qu where "qu = pow2 (e - 52)"
  define m where "m = round_half_even (q / qu)"
  have p: "p = of_int m * qu"
    using r by (simp add: round_double_pos_def Let_def e_def qu_def m_def split: if_splits)
  have qu0: "0 < qu" by (simp add: qu_def pow2_pos)
  from floor_log2_bounds [OF q] have
    lo: "pow2 (floor_log2 q) \<le> q" and hi: "q < pow2 (floor_log2 q + 1)" by simp_all
  consider "20 \<le> e" | "e = 19" | "e \<le> 18" by linarith
  then show ?thesis
  proof cases
    case 1
    then have ee: "e = floor_log2 q" by (simp add: e_def max_def split: if_splits)
    have "pow2 52 * qu = pow2 e" by (simp add: qu_def flip: pow2_add)
    then have "pow2 52 * qu \<le> q" using lo ee by simp
    then have "pow2 52 \<le> q / qu" using qu0 by (simp add: pos_le_divide_eq)
    then have "(of_int (2 ^ 52) :: rat) \<le> q / qu" by (simp add: pow2_def)
    then have "2 ^ 52 \<le> \<lfloor>q / qu\<rfloor>" by (simp only: le_floor_iff)
    then have "2 ^ 52 \<le> m"
      using round_half_even_bounds [of "q / qu"] unfolding m_def by linarith
    then have "(of_int (2 ^ 52) :: rat) \<le> of_int m" by (simp only: of_int_le_iff)
    then have "pow2 52 \<le> of_int m" by (simp add: pow2_def)
    then have "pow2 52 * qu \<le> of_int m * qu" using qu0 by simp
    then have "pow2 e \<le> p" using \<open>pow2 52 * qu = pow2 e\<close> p by simp
    moreover have "pow2 20 \<le> pow2 e" using 1 by (rule pow2_mono)
    ultimately have "pow2 20 \<le> p" by simp
    with le show ?thesis by (simp add: pow2_def)
  next
    case 2
    then have qu: "qu = 1 / 2 ^ 33" by (simp add: qu_def pow2_def)
    from le have "(of_int m :: rat) \<le> of_int 214748362652516352 / of_int 25"
      by (simp add: p qu)
    then have "m \<le> \<lfloor>(of_int 214748362652516352 :: rat) / of_int 25\<rfloor>"
      by (simp only: le_floor_iff)
    then have "m \<le> 8589934506100654"
      by (simp only: floor_divide_of_int_eq)
    then have "(of_int m :: rat) \<le> of_int 8589934506100654" by (simp only: of_int_le_iff)
    then show ?thesis by (simp add: p qu)
  next
    case 3
    then have "floor_log2 q + 1 \<le> 19" by (simp add: e_def)
    then have "pow2 (floor_log2 q + 1) \<le> pow2 19" by (rule pow2_mono)
    with hi have q19: "q < pow2 19" by simp
    from 3 have "e - 52 \<le> - 34" by simp
    then have "qu \<le> pow2 (- 34)" unfolding qu_def by (rule pow2_mono)
    have "(of_int m :: rat) \<le> of_int (\<lfloor>q / qu\<rfloor> + 1)"
      using round_half_even_bounds [of "q / qu"] by (simp only: of_int_le_iff m_def)
    also have "\<dots> \<le> q / qu + 1" by simp
    finally have "of_int m * qu \<le> (q / qu + 1) * qu"
      using qu0 by (simp only: mult_le_cancel_right_pos)
    also have "\<dots> = q + qu" using qu0 by (simp add: field_simps)
    also have "\<dots> \<le> pow2 19 + pow2 (- 34)" using q19 \<open>qu \<le> pow2 (- 34)\<close> by simp
    also have "\<dots> \<le> 4294967253050327 / 4294967296" by (simp add: pow2_def)
    finally show ?thesis by (simp add: p)
  qed
qed

lemma to_number_le_price_limit:
  assumes "to_number q = Num p"
  shows "p \<le> 99999999 / 100 \<longleftrightarrow> p \<le> 4294967253050327 / 4294967296"
proof
  assume "p \<le> 4294967253050327 / 4294967296"
  then show "p \<le> 99999999 / 100" by simp
next
  assume le: "p \<le> 99999999 / 100"
  consider "q = 0" | "0 < q" | "q < 0" by linarith
  then show "p \<le> 4294967253050327 / 4294967296"
  proof cases
    case 1
    with assms show ?thesis by (simp add: to_number_def)
  next
    case 2
    with assms have "round_double_pos q = Some p"
      by (simp add: to_number_def split: option.splits)
    from round_double_pos_le_price_limit [OF 2 this le] show ?thesis .
  next
    case 3
    with assms obtain w where "round_double_pos (- q) = Some w" and "p = - w"
      by (auto simp: to_number_def split: option.splits)
    with round_double_pos_nonneg [of "- q" w] 3 show ?thesis by simp
  qed
qed

lemma parseFloat_cases:
  "parseFloat s = NaN \<or> parseFloat s = PosInfinity \<or> parseFloat s = NegInfinity
     \<or> (\<exists>q. parseFloat s = to_number q)"
  unfolding parseFloat_def Let_def by (simp only: split: if_split) blast

lemma unitPrice_accepts_decimal_iff:
  "unitPrice_validate v fd = [] \<longleftrightarrow>
     v \<noteq> [] \<and> (\<exists>p. parseFloat v = Num p \<and> 0 \<le> p \<and> p \<le> 99999999 / 100)"
proof -
  have "parseFloat v = Num p \<Longrightarrow>
      p \<le> 99999999 / 100 \<longleftrightarrow> p \<le> 4294967253050327 / 4294967296" for p
    using parseFloat_cases [of v] by (auto dest: to_number_le_price_limit [OF sym])
  then show ?thesis unfolding unitPrice_accepts_iff by blast
qed

section \<open>The claims\<close>

text \<open>
  C1. For every form state, \<open>handleSubmit\<close> sends the POST only when every field's rule,
  applied to that field's value and the whole draft, returns the empty string; when some
  rule returns a message, the handler stops before any request and shows exactly one
  notification, the aggregate error.
\<close>

theorem handleSubmit_posts_only_when_valid:
  "(posts (snd (handleSubmit r st)) \<noteq> [] \<longrightarrow> fully_valid (formData st))
   \<and> (\<not> fully_valid (formData st) \<longrightarrow>
        handleSubmit r st =
          (st\<lparr>errors := fst (validate_all (formData st))\<rparr>,
           [ToastError (JSString (js ''Please fix the form errors before submitting''))]))"
  by (cases "fully_valid (formData st)")
     (simp_all add: handleSubmit_def handleSubmit_start_invalid)

theorem handleSubmit_posts_only_when_valid_witness:
  "posts (snd (handleSubmit Resolved sample_state)) \<noteq> []
   \<and> fully_valid (formData sample_state)
   \<and> \<not> fully_valid (formData initial_state)
   \<and> handleSubmit Resolved initial_state =
       (initial_state\<lparr>errors := fst (validate_all (formData initial_state))\<rparr>,
        [ToastError (JSString (js ''Please fix the form errors before submitting''))])"
proof -
  have 1: "posts (snd (handleSubmit Resolved sample_state)) \<noteq> []"
    using fully_valid_sample
    by (simp add: handleSubmit_def handleSubmit_start_valid handleSubmit_finish_def
        sample_state_def)
  have 2: "\<not> fully_valid (formData initial_state)"
    using not_fully_valid_initial by (simp add: initial_state_def)
  from 1 2 handleSubmit_posts_only_when_valid [of Resolved sample_state]
    handleSubmit_posts_only_when_valid [of Resolved initial_state]
  show ?thesis by blast
qed

text \<open>
  C2. For every fully valid draft, submitting sends exactly one POST; its body has
  \<open>pName\<close> as the original string, \<open>unitPrice\<close> as \<open>parseFloat\<close> of its string and the
  two counts and the category as \<open>parseInt\<close> of theirs, all four of them numbers and the
  last three integers; when the request resolves, the draft is back to the initial empty
  state and \<open>onClose\<close> has been called.
\<close>

theorem handleSubmit_valid_draft:
  assumes "fully_valid (formData st)"
  shows "posts (snd (handleSubmit r st)) =
       [(js ''http://localhost:3000/api/products/add'',
         \<lparr>pName = formData st PName,
          unitPrice = parseFloat (formData st UnitPrice),
          inStockCount = parseInt (formData st InStockCount),
          lowStockCount = parseInt (formData st LowStockCount),
          categoryID = parseInt (formData st CategoryID)\<rparr>)]
   \<and> (\<exists>p (i::int) (l::int) (c::int).
        parseFloat (formData st UnitPrice) = Num p
      \<and> parseInt (formData st InStockCount) = Num (of_int i)
      \<and> parseInt (formData st LowStockCount) = Num (of_int l)
      \<and> parseInt (formData st CategoryID) = Num (of_int c))
   \<and> handleSubmit Resolved st =
       (st\<lparr>formData := INITIAL_FORM_STATE, errors := Map.empty, isSubmitting := False\<rparr>,
        [ToastLoading (js ''Adding product...''),
         Post (js ''http://localhost:3000/api/products/add'') (processedData (formData st)),
         ToastSuccess (js ''Successfully added the product!''),
         OnClose])"
proof -
  have 1: "posts (snd (handleSubmit r st)) =
       [(js ''http://localhost:3000/api/products/add'', processedData (formData st))]"
    using assms
    by (cases r) (simp_all add: handleSubmit_def handleSubmit_start_valid handleSubmit_finish_def)
  have 2: "\<exists>p (i::int) (l::int) (c::int).
        parseFloat (formData st UnitPrice) = Num p
      \<and> parseInt (formData st InStockCount) = Num (of_int i)
      \<and> parseInt (formData st LowStockCount) = Num (of_int l)
      \<and> parseInt (formData st CategoryID) = Num (of_int c)"
    using fully_valid_numbers [OF assms] by blast
  have 3: "handleSubmit Resolved st =
       (st\<lparr>formData := INITIAL_FORM_STATE, errors := Map.empty, isSubmitting := False\<rparr>,
        [ToastLoading (js ''Adding product...''),
         Post (js ''http://localhost:3000/api/products/add'') (processedData (formData st)),
         ToastSuccess (js ''Successfully added the product!''),
         OnClose])"
    using assms
    by (simp add: handleSubmit_def handleSubmit_start_valid handleSubmit_finish_def)
  from 1 2 3 show ?thesis by (simp add: processedData_def)
qed

theorem handleSubmit_valid_draft_witness:
  "fully_valid (formData sample_state)
   \<and> posts (snd (handleSubmit Resolved sample_state)) =
       [(js ''http://localhost:3000/api/products/add'',
         \<lparr>pName = js ''Tea'', unitPrice = Num (19 / 2), inStockCount = Num 10,
          lowStockCount = Num 10, categoryID = Num 1000\<rparr>)]
   \<and> fst (handleSubmit Resolved sample_state) = initial_state
   \<and> last (snd (handleSubmit Resolved sample_state)) = OnClose"
proof -
  have v: "fully_valid (formData sample_state)"
    using fully_valid_sample by (simp add: sample_state_def)
  have d: "formData sample_state PName = js ''Tea''"
    "formData sample_state UnitPrice = js ''9.5''"
    "formData sample_state InStockCount = js ''10''"
    "formData sample_state LowStockCount = js ''10''"
    "formData sample_state CategoryID = js ''1000''"
    by (simp_all add: sample_state_def sample_draft_def)
  have i: "sample_state\<lparr>formData := INITIAL_FORM_STATE, errors := Map.empty,
      isSubmitting := False\<rparr> = initial_state"
    by (simp add: sample_state_def initial_state_def)
  from handleSubmit_valid_draft [OF v, of Resolved] have
    p: "posts (snd (handleSubmit Resolved sample_state)) =
       [(js ''http://localhost:3000/api/products/add'',
         \<lparr>pName = formData sample_state PName,
          unitPrice = parseFloat (formData sample_state UnitPrice),
          inStockCount = parseInt (formData sample_state InStockCount),
          lowStockCount = parseInt (formData sample_state LowStockCount),
          categoryID = parseInt (formData sample_state CategoryID)\<rparr>)]"
    and h: "handleSubmit Resolved sample_state =
       (sample_state\<lparr>formData := INITIAL_FORM_STATE, errors := Map.empty,
          isSubmitting := False\<rparr>,
        [ToastLoading (js ''Adding product...''),
         Post (js ''http://localhost:3000/api/products/add'')
           (processedData (formData sample_state)),
         ToastSuccess (js ''Successfully added the product!''),
         OnClose])"
    by blast+
  have 1: "posts (snd (handleSubmit Resolved sample_state)) =
       [(js ''http://localhost:3000/api/products/add'',
         \<lparr>pName = js ''Tea'', unitPrice = Num (19 / 2), inStockCount = Num 10,
          lowStockCount = Num 10, categoryID = Num 1000\<rparr>)]"
    unfolding p d by (simp add: parseFloat_9_5 parseInt_10 parseInt_1000)
  have 2: "fst (handleSubmit Resolved sample_state) = initial_state"
    unfolding h i by simp
  have 3: "last (snd (handleSubmit Resolved sample_state)) = OnClose"
    unfolding h by simp
  from v 1 2 3 show ?thesis by blast
qed

text \<open>
  C3, as the code has it. For every submission whose request fails, the error
  notification is given the \<open>message\<close> of the response body when that value is truthy: in
  particular a non-empty string message is shown as it is. It is given the fallback
  \<open>Failed to add product\<close> when the message is absent or falsy, that is \<open>undefined\<close>,
  \<open>null\<close>, \<open>false\<close>, zero, NaN or the empty string. The draft is left as it was and the
  form is idle again.
\<close>

theorem handleSubmit_rejected_message:
  assumes "fully_valid (formData st)"
  shows "(\<exists>shown.
        snd (handleSubmit (Rejected m) st) =
          [ToastLoading (js ''Adding product...''),
           Post (js ''http://localhost:3000/api/products/add'') (processedData (formData st)),
           ToastError shown]
      \<and> (m = JSUndefined \<or> m = JSNull \<or> m = JSBoolean False \<or> m = JSNumber (Num 0)
           \<or> m = JSNumber NaN \<or> m = JSString []
         \<longrightarrow> shown = JSString (js ''Failed to add product''))
      \<and> (m \<noteq> JSUndefined \<and> m \<noteq> JSNull \<and> m \<noteq> JSBoolean False \<and> m \<noteq> JSNumber (Num 0)
           \<and> m \<noteq> JSNumber NaN \<and> m \<noteq> JSString []
         \<longrightarrow> shown = m)
      \<and> (\<forall>t. m = JSString t \<and> t \<noteq> [] \<longrightarrow> shown = JSString t))
   \<and> formData (fst (handleSubmit (Rejected m) st)) = formData st
   \<and> \<not> isSubmitting (fst (handleSubmit (Rejected m) st))"
proof -
  have e: "errorMessage m =
      (if m = JSUndefined \<or> m = JSNull \<or> m = JSBoolean False \<or> m = JSNumber (Num 0)
          \<or> m = JSNumber NaN \<or> m = JSString []
       then JSString (js ''Failed to add product'') else m)"
    by (cases m) (auto simp: errorMessage_def)
  have h: "handleSubmit (Rejected m) st =
      (st\<lparr>errors := Map.empty, isSubmitting := False\<rparr>,
       [ToastLoading (js ''Adding product...''),
        Post (js ''http://localhost:3000/api/products/add'') (processedData (formData st)),
        ToastError (errorMessage m)])"
    using assms
    by (simp add: handleSubmit_def handleSubmit_start_valid handleSubmit_finish_def)
  show ?thesis
    unfolding h e by auto
qed

theorem handleSubmit_rejected_message_witness:
  "fully_valid (formData sample_state)
   \<and> snd (handleSubmit (Rejected (JSString (js ''Category not found''))) sample_state) =
       [ToastLoading (js ''Adding product...''),
        Post (js ''http://localhost:3000/api/products/add'') (processedData sample_draft),
        ToastError (JSString (js ''Category not found''))]
   \<and> snd (handleSubmit (Rejected JSUndefined) sample_state) =
       [ToastLoading (js ''Adding product...''),
        Post (js ''http://localhost:3000/api/products/add'') (processedData sample_draft),
        ToastError (JSString (js ''Failed to add product''))]
   \<and> snd (handleSubmit (Rejected JSNull) sample_state) =
       [ToastLoading (js ''Adding product...''),
        Post (js ''http://localhost:3000/api/products/add'') (processedData sample_draft),
        ToastError (JSString (js ''Failed to add product''))]
   \<and> snd (handleSubmit (Rejected (JSNumber (Num 404))) sample_state) =
       [ToastLoading (js ''Adding product...''),
        Post (js ''http://localhost:3000/api/products/add'') (processedData sample_draft),
        ToastError (JSNumber (Num 404))]
   \<and> formData (fst (handleSubmit (Rejected (JSString (js ''Category not found''))) sample_state))
       = sample_draft
   \<and> \<not> isSubmitting
         (fst (handleSubmit (Rejected (JSString (js ''Category not found''))) sample_state))"
proof -
  have v: "fully_valid (formData sample_state)"
    using fully_valid_sample by (simp add: sample_state_def)
  have d: "formData sample_state = sample_draft" by (simp add: sample_state_def)
  have n: "js ''Category not found'' \<noteq> []" by (simp add: js_nonempty)
  from handleSubmit_rejected_message [OF v, of "JSString (js ''Category not found'')"]
    handleSubmit_rejected_message [OF v, of JSUndefined]
    handleSubmit_rejected_message [OF v, of JSNull]
    handleSubmit_rejected_message [OF v, of "JSNumber (Num 404)"]
    n fully_valid_sample
  show ?thesis by (auto simp: d)
qed

text \<open>
  C3, as the claim has it, fails when the body carries the empty string as its message:
  the field is present, and the notification shows the fallback, not the field.
\<close>

theorem handleSubmit_rejected_empty_message_counterexample:
  "snd (handleSubmit (Rejected (JSString [])) sample_state) =
     [ToastLoading (js ''Adding product...''),
      Post (js ''http://localhost:3000/api/products/add'') (processedData sample_draft),
      ToastError (JSString (js ''Failed to add product''))]
   \<and> JSString (js ''Failed to add product'') \<noteq> JSString []"
  using fully_valid_sample
  by (simp add: handleSubmit_def handleSubmit_start_valid handleSubmit_finish_def errorMessage_def
      sample_state_def js_nonempty)

text \<open>
  C4. The flag \<open>isSubmitting\<close> is set by \<open>handleSubmit\<close> exactly when all rules return the
  empty string (an aborted submit and a field change leave it as it was), and it is clear
  once the request has ended, whether it resolved or was rejected.
\<close>

theorem isSubmitting_transitions:
  "(case handleSubmit_start st of
      Aborted st' es \<Rightarrow> \<not> fully_valid (formData st) \<and> isSubmitting st' = isSubmitting st
    | Awaiting st' es \<Rightarrow> fully_valid (formData st) \<and> isSubmitting st')
   \<and> \<not> isSubmitting (fst (handleSubmit_finish r st1))
   \<and> (fully_valid (formData st) \<longrightarrow> \<not> isSubmitting (fst (handleSubmit r st)))
   \<and> (\<not> fully_valid (formData st) \<longrightarrow>
        isSubmitting (fst (handleSubmit r st)) = isSubmitting st)
   \<and> (\<forall>st'. handleChange name v st = Inr st' \<longrightarrow> isSubmitting st' = isSubmitting st)"
proof -
  have a: "case handleSubmit_start st of
      Aborted st' es \<Rightarrow> \<not> fully_valid (formData st) \<and> isSubmitting st' = isSubmitting st
    | Awaiting st' es \<Rightarrow> fully_valid (formData st) \<and> isSubmitting st'"
    by (cases "fully_valid (formData st)")
       (simp_all add: handleSubmit_start_valid handleSubmit_start_invalid)
  have b: "\<not> isSubmitting (fst (handleSubmit_finish r st1))"
    by (cases r) (simp_all add: handleSubmit_finish_def)
  have c: "fully_valid (formData st) \<longrightarrow> \<not> isSubmitting (fst (handleSubmit r st))"
    by (cases r) (simp_all add: handleSubmit_def handleSubmit_start_valid handleSubmit_finish_def)
  have d: "\<not> fully_valid (formData st) \<longrightarrow>
        isSubmitting (fst (handleSubmit r st)) = isSubmitting st"
    by (simp add: handleSubmit_def handleSubmit_start_invalid)
  have e: "\<forall>st'. handleChange name v st = Inr st' \<longrightarrow> isSubmitting st' = isSubmitting st"
    by (auto simp: handleChange_def Let_def split: option.splits)
  from a b c d e show ?thesis by blast
qed

theorem isSubmitting_transitions_witness:
  "fully_valid (formData sample_state)
   \<and> \<not> isSubmitting sample_state
   \<and> (\<exists>st' es. handleSubmit_start sample_state = Awaiting st' es \<and> isSubmitting st')
   \<and> \<not> isSubmitting (fst (handleSubmit (Rejected JSUndefined) sample_state))
   \<and> \<not> isSubmitting (fst (handleSubmit Resolved sample_state))
   \<and> \<not> fully_valid (formData initial_state)
   \<and> \<not> isSubmitting (fst (handleSubmit Resolved initial_state))
   \<and> (\<exists>st'. handleChange PName (js ''Tea'') initial_state = Inr st' \<and> \<not> isSubmitting st')"
proof -
  have v: "fully_valid (formData sample_state)"
    using fully_valid_sample by (simp add: sample_state_def)
  have n: "\<not> fully_valid (formData initial_state)"
    using not_fully_valid_initial by (simp add: initial_state_def)
  have s: "\<not> isSubmitting sample_state" "\<not> isSubmitting initial_state"
    by (simp_all add: sample_state_def initial_state_def)
  have a: "\<exists>st' es. handleSubmit_start sample_state = Awaiting st' es \<and> isSubmitting st'"
    using isSubmitting_transitions [of sample_state] v
    by (cases "handleSubmit_start sample_state") auto
  obtain st' where c: "handleChange PName (js ''Tea'') initial_state = Inr st'"
    by (simp add: handleChange_def INPUT_FIELDS_def)
  from isSubmitting_transitions [of sample_state "Rejected JSUndefined"]
    isSubmitting_transitions [of sample_state Resolved]
    isSubmitting_transitions [of initial_state Resolved undefined PName "js ''Tea''"]
    v n s a c
  show ?thesis by auto
qed

text \<open>
  C5. With a draft whose \<open>inStockCount\<close> is \<open>10\<close>, the low-stock rule answers the value
  \<open>11\<close> with its cross-field message and the value \<open>10\<close> with the empty string; in
  general a value whose parsed number is greater than the parsed \<open>inStockCount\<close> is
  rejected.
\<close>

theorem lowStockCount_cross_field:
  "lowStockCount_validate (js ''11'') (fd(InStockCount := js ''10''))
     = js ''Low stock alert cannot be higher than current stock''
   \<and> js ''Low stock alert cannot be higher than current stock'' \<noteq> []
   \<and> lowStockCount_validate (js ''10'') (fd(InStockCount := js ''10'')) = []
   \<and> (js_gt (parseInt v) (parseInt (fd InStockCount)) \<longrightarrow> lowStockCount_validate v fd \<noteq> [])"
  by (simp add: lowStockCount_validate_def parseInt_10 parseInt_11 isNaN_def js_gt_def
      js_nonempty Let_def)

theorem lowStockCount_cross_field_witness:
  "js_gt (parseInt (js ''11'')) (parseInt (sample_draft InStockCount))
   \<and> lowStockCount_validate (js ''11'') sample_draft \<noteq> []"
proof -
  have "js_gt (parseInt (js ''11'')) (parseInt (sample_draft InStockCount))"
    by (simp add: sample_draft_def parseInt_10 parseInt_11 js_gt_def)
  with lowStockCount_cross_field [of sample_draft "js ''11''"] show ?thesis by blast
qed

text \<open>
  C6. The price rule rejects \<open>-1\<close>, accepts \<open>0\<close>, rejects \<open>1000000\<close> and accepts
  \<open>999999.99\<close>; in general it accepts exactly the non-empty values that \<open>parseFloat\<close>
  reads as a number between 0 and 999999.99, and rejects every other value.
\<close>

theorem unitPrice_range:
  "unitPrice_validate (js ''-1'') fd \<noteq> []
   \<and> unitPrice_validate (js ''0'') fd = []
   \<and> unitPrice_validate (js ''1000000'') fd \<noteq> []
   \<and> unitPrice_validate (js ''999999.99'') fd = []
   \<and> (unitPrice_validate v fd = [] \<longleftrightarrow>
        v \<noteq> [] \<and> (\<exists>p. parseFloat v = Num p \<and> 0 \<le> p \<and> p \<le> 99999999 / 100))"
proof -
  have "unitPrice_validate (js ''-1'') fd \<noteq> []"
    by (simp add: unitPrice_validate_def parseFloat_minus_1 isNaN_def js_nonempty)
  moreover have "unitPrice_validate (js ''0'') fd = []"
    by (simp add: unitPrice_validate_def parseFloat_0 price_limit_value isNaN_def js_gt_def
        js_nonempty)
  moreover have "unitPrice_validate (js ''1000000'') fd \<noteq> []"
    by (simp add: unitPrice_validate_def parseFloat_1000000 price_limit_value isNaN_def
        js_gt_def js_nonempty)
  moreover have "unitPrice_validate (js ''999999.99'') fd = []"
    by (simp add: unitPrice_validate_def parseFloat_999999_99 price_limit_value isNaN_def
        js_gt_def js_nonempty)
  ultimately show ?thesis
    using unitPrice_accepts_decimal_iff [of v fd] by simp
qed

text \<open>
  C7. The category rule rejects \<open>999\<close>, accepts \<open>1000\<close> and \<open>9999\<close> and rejects
  \<open>10000\<close>; in general it accepts a value exactly when the value is non-empty and
  \<open>parseInt\<close> reads it as an integer from 1000 to 9999.
\<close>

theorem categoryID_range:
  "categoryID_validate (js ''999'') fd \<noteq> []
   \<and> categoryID_validate (js ''1000'') fd = []
   \<and> categoryID_validate (js ''9999'') fd = []
   \<and> categoryID_validate (js ''10000'') fd \<noteq> []
   \<and> (categoryID_validate v fd = [] \<longleftrightarrow>
        v \<noteq> [] \<and> (\<exists>k::int. parseInt v = Num (of_int k) \<and> 1000 \<le> k \<and> k \<le> 9999))"
  using of_int_eq_iff [where ?'a = rat]
  by (simp add: categoryID_accepts_iff parseInt_999 parseInt_1000 parseInt_9999 parseInt_10000
      js_nonempty)

text \<open>
  C8. A change event on a field changes the draft and the error map at that field only;
  the new error entry is the field's rule applied to the new value and to the draft with
  the change applied; the flag \<open>isSubmitting\<close> is not touched.
\<close>

theorem handleChange_frame:
  "\<exists>st' field.
      handleChange name v st = Inr st'
    \<and> find (\<lambda>f. id' f = name) INPUT_FIELDS = Some field
    \<and> formData st' name = v
    \<and> errors st' name = Some (validate field v (formData st'))
    \<and> (\<forall>other. other \<noteq> name \<longrightarrow>
          formData st' other = formData st other \<and> errors st' other = errors st other)
    \<and> isSubmitting st' = isSubmitting st"
proof -
  from find_INPUT_FIELDS [of name] obtain field where
    f: "find (\<lambda>f. id' f = name) INPUT_FIELDS = Some field"
    and frame: "\<And>w fd x. validate field w (fd(name := x)) = validate field w fd"
    by blast
  show ?thesis
    by (simp add: handleChange_def f Let_def frame)
qed

theorem handleChange_frame_witness:
  "\<exists>st'. handleChange LowStockCount (js ''11'') sample_state = Inr st'
     \<and> formData st' LowStockCount = js ''11''
     \<and> errors st' LowStockCount
         = Some (js ''Low stock alert cannot be higher than current stock'')
     \<and> formData st' InStockCount = js ''10''
     \<and> errors st' InStockCount = None"
proof -
  from handleChange_frame [of LowStockCount "js ''11''" sample_state]
  obtain st' field where
    h: "handleChange LowStockCount (js ''11'') sample_state = Inr st'"
    and f: "find (\<lambda>f. id' f = LowStockCount) INPUT_FIELDS = Some field"
    and v: "formData st' LowStockCount = js ''11''"
    and e: "errors st' LowStockCount = Some (validate field (js ''11'') (formData st'))"
    and o: "\<And>other. other \<noteq> LowStockCount \<Longrightarrow>
          formData st' other = formData sample_state other
          \<and> errors st' other = errors sample_state other"
    by blast
  from f have field: "validate field = lowStockCount_validate"
    by (auto simp: INPUT_FIELDS_def)
  from o [of InStockCount] have i: "formData st' InStockCount = js ''10''"
    "errors st' InStockCount = None"
    by (simp_all add: sample_state_def sample_draft_def)
  have "lowStockCount_validate (js ''11'') (formData st')
      = js ''Low stock alert cannot be higher than current stock''"
    by (simp add: lowStockCount_validate_def i parseInt_10 parseInt_11 isNaN_def js_gt_def
        js_nonempty Let_def)
  with h v e i field show ?thesis by simp
qed

text \<open>
  C9. The name rule answers every value that is not all white space and is longer than
  100 code units with \<open>Product name cannot exceed 100 characters\<close>, and every value made
  of white space only with the required-field message.
\<close>

theorem pName_length_cap:
  "(trim v \<noteq> [] \<and> 100 < length v \<longrightarrow>
      pName_validate v fd = js ''Product name cannot exceed 100 characters'')
   \<and> js ''Product name cannot exceed 100 characters'' \<noteq> []
   \<and> ((\<forall>c \<in> set v. is_ws c) \<longrightarrow> pName_validate v fd = js ''Product name is required'')"
  by (simp add: pName_validate_def js_nonempty flip: trim_empty_iff)

theorem pName_length_cap_witness:
  "trim (replicate 101 97) \<noteq> [] \<and> 100 < length (replicate 101 (97::nat))
   \<and> pName_validate (replicate 101 97) INITIAL_FORM_STATE = js ''Product name cannot exceed 100 characters''
   \<and> list_all is_ws [32, 9, 160, 8195]
   \<and> pName_validate [32, 9, 160, 8195] INITIAL_FORM_STATE = js ''Product name is required''"
proof -
  have 1: "trim (replicate 101 97) \<noteq> []"
    by (simp add: trim_empty_iff is_ws_def)
  have 2: "list_all is_ws [32, 9, 160, 8195]"
    by (simp add: is_ws_def)
  from 1 2 pName_length_cap [of "replicate 101 97" INITIAL_FORM_STATE]
    pName_length_cap [of "[32, 9, 160, 8195]" INITIAL_FORM_STATE]
  show ?thesis by simp
qed

text \<open>
  C10. When \<open>parseInt\<close> reads the draft's \<open>inStockCount\<close> as NaN, the low-stock rule
  accepts every non-empty value that it reads as a number not below zero: the bound by
  the stock is not applied. The stock rule itself then returns a message, so the submit
  sends no request.
\<close>

theorem lowStockCount_unchecked_without_stock:
  assumes "isNaN (parseInt (formData st InStockCount))"
    and "v \<noteq> []" and "\<not> isNaN (parseInt v)" and "\<not> js_lt (parseInt v) (Num 0)"
  shows "lowStockCount_validate v (formData st) = []
     \<and> inStockCount_validate (formData st InStockCount) (formData st) \<noteq> []
     \<and> posts (snd (handleSubmit r st)) = []"
proof -
  have 1: "lowStockCount_validate v (formData st) = []"
    using assms by (simp add: lowStockCount_validate_def isNaN_def js_gt_def Let_def)
  have 2: "inStockCount_validate (formData st InStockCount) (formData st) \<noteq> []"
    using assms(1) by (simp add: inStockCount_validate_def Let_def js_nonempty)
  then have "\<not> fully_valid (formData st)" by (simp add: fully_valid_iff)
  then have 3: "posts (snd (handleSubmit r st)) = []"
    by (simp add: handleSubmit_def handleSubmit_start_invalid)
  from 1 2 3 show ?thesis by simp
qed

theorem lowStockCount_unchecked_without_stock_witness:
  "isNaN (parseInt (formData initial_state InStockCount))
   \<and> js ''11'' \<noteq> [] \<and> \<not> isNaN (parseInt (js ''11'')) \<and> \<not> js_lt (parseInt (js ''11'')) (Num 0)
   \<and> lowStockCount_validate (js ''11'') (formData initial_state) = []
   \<and> inStockCount_validate (formData initial_state InStockCount) (formData initial_state) \<noteq> []
   \<and> posts (snd (handleSubmit Resolved initial_state)) = []"
proof -
  have 1: "isNaN (parseInt (formData initial_state InStockCount))"
    by (simp add: initial_state_def INITIAL_FORM_STATE_def parseInt_empty isNaN_def)
  have 2: "js ''11'' \<noteq> []" by (simp add: js_nonempty)
  have 3: "\<not> isNaN (parseInt (js ''11''))" "\<not> js_lt (parseInt (js ''11'')) (Num 0)"
    by (simp_all add: parseInt_11 isNaN_def)
  from lowStockCount_unchecked_without_stock [OF 1 2 3, of Resolved] 1 2 3
  show ?thesis by simp
qed

end
